theory Spec2Isabelle
  imports Main
begin

section \<open>The command package: post-modifiers and runnable commands\<close>

text \<open>
  A shallow embedding of \<^verbatim>\<open>command/command.go\<close>. Go text is a list of characters
  (one list element per character of the Go string; for the trimming functions of
  package \<^verbatim>\<open>strings\<close> an element stands for one code point, which for a cutset of
  ASCII characters is also Go's byte-by-byte scan). A Go \<^verbatim>\<open>error\<close> is an
  \<open>error option\<close>, \<open>None\<close> being \<^verbatim>\<open>nil\<close>. A pair \<open>(value, err)\<close> is a Go
  two-valued return.
\<close>

subsection \<open>Errors\<close>

text \<open>
  The error values that can reach a caller of this package: the text error built by
  \<^verbatim>\<open>fmt.Errorf\<close> without a wrapping verb, the errors of \<^verbatim>\<open>os/exec\<close> (a non-zero exit
  status, a launch failure with its message, a cancelled or expired context), and the
  wrapper that \<^verbatim>\<open>errors.Join\<close> allocates around the errors it is given.
\<close>

datatype error =
    errorString string
  | ExitError int
  | ExecError string
  | Canceled
  | DeadlineExceeded
  | joinError "error list"

text \<open>\<^verbatim>\<open>errors.Join\<close>: nil arguments are dropped; with nothing left the result is nil,
  otherwise a fresh wrapper holding the remaining errors in order.\<close>

definition errors_Join :: "error option list \<Rightarrow> error option" where
  "errors_Join errs =
     (let kept = concat (map (\<lambda>err. case err of None \<Rightarrow> [] | Some x \<Rightarrow> [x]) errs)
      in if kept = [] then None else Some (joinError kept))"

text \<open>\<^verbatim>\<open>%d\<close> of \<^verbatim>\<open>fmt\<close>: decimal digits, a minus sign in front of a negative number.\<close>

fun decimal :: "nat \<Rightarrow> string" where
  "decimal n =
     (if n < 10 then [''0123456789'' ! n]
      else decimal (n div 10) @ [''0123456789'' ! (n mod 10)])"

declare decimal.simps [simp del]

definition format_d :: "int \<Rightarrow> string" where
  "format_d i = (if i < 0 then CHR ''-'' # decimal (nat (- i)) else decimal (nat i))"

text \<open>The \<^verbatim>\<open>Error()\<close> method. A join wrapper prints its errors one per line, so a
  wrapper around a single error prints exactly as that error.\<close>

fun join_lines :: "string list \<Rightarrow> string" where
  "join_lines [] = []"
| "join_lines [s] = s"
| "join_lines (s # t # rest) = s @ CHR 0x0A # join_lines (t # rest)"

fun Error :: "error \<Rightarrow> string" where
  "Error (errorString s) = s"
| "Error (ExitError code) = ''exit status '' @ format_d code"
| "Error (ExecError s) = s"
| "Error Canceled = ''context canceled''"
| "Error DeadlineExceeded = ''context deadline exceeded''"
| "Error (joinError errs) = join_lines (map Error errs)"

text \<open>The \<^verbatim>\<open>Unwrap() []error\<close> method of the join wrapper; the other errors of this
  model wrap nothing.\<close>

fun Unwrap :: "error \<Rightarrow> error list" where
  "Unwrap (joinError errs) = errs"
| "Unwrap _ = []"

subsection \<open>Trimming, as package strings does it\<close>

text \<open>
  \<^verbatim>\<open>strings.TrimRight\<close> cuts the last character off while it belongs to the cutset,
  \<^verbatim>\<open>strings.TrimLeft\<close> does so from the front, and \<^verbatim>\<open>strings.Trim\<close> is the left
  trimming of the right trimming. All three return the text unchanged when the text or
  the cutset is empty.
\<close>

function trimRightLoop :: "string \<Rightarrow> string \<Rightarrow> string" where
  "trimRightLoop s cutset =
     (if s \<noteq> [] \<and> last s \<in> set cutset then trimRightLoop (butlast s) cutset else s)"
  by pat_completeness auto
termination
  by (relation "measure (\<lambda>(s, cutset). length s)") auto

declare trimRightLoop.simps [simp del]

fun trimLeftLoop :: "string \<Rightarrow> string \<Rightarrow> string" where
  "trimLeftLoop [] cutset = []"
| "trimLeftLoop (c # s) cutset = (if c \<in> set cutset then trimLeftLoop s cutset else c # s)"

definition TrimRight :: "string \<Rightarrow> string \<Rightarrow> string" where
  "TrimRight s cutset = (if s = [] \<or> cutset = [] then s else trimRightLoop s cutset)"

definition TrimLeft :: "string \<Rightarrow> string \<Rightarrow> string" where
  "TrimLeft s cutset = (if s = [] \<or> cutset = [] then s else trimLeftLoop s cutset)"

definition Trim :: "string \<Rightarrow> string \<Rightarrow> string" where
  "Trim s cutset =
     (if s = [] \<or> cutset = [] then s else trimLeftLoop (trimRightLoop s cutset) cutset)"

subsection \<open>The trimming post-modifier\<close>

text \<open>\<^verbatim>\<open>PostModifierTrimOption\<close> is a Go \<^verbatim>\<open>int\<close> with three named values; any other
  integer converts to the type as well.\<close>

type_synonym PostModifierTrimOption = int

definition PostModifierTrimRight :: PostModifierTrimOption where
  "PostModifierTrimRight = 0"

definition PostModifierTrimLeft :: PostModifierTrimOption where
  "PostModifierTrimLeft = 1"

definition PostModifierTrimBoth :: PostModifierTrimOption where
  "PostModifierTrimBoth = 2"

record trimPostModifier =
  trimOpt :: PostModifierTrimOption
  trimChar :: string

definition NewTrimPostModifier :: "PostModifierTrimOption \<Rightarrow> string \<Rightarrow> trimPostModifier" where
  "NewTrimPostModifier option char = \<lparr>trimOpt = option, trimChar = char\<rparr>"

definition process :: "trimPostModifier \<Rightarrow> string \<Rightarrow> string \<times> error option" where
  "process t content =
     (if trimOpt t = PostModifierTrimRight then (TrimRight content (trimChar t), None)
      else if trimOpt t = PostModifierTrimLeft then (TrimLeft content (trimChar t), None)
      else if trimOpt t = PostModifierTrimBoth then (Trim content (trimChar t), None)
      else ([], Some (errorString (''unknown trim option: '' @ format_d (trimOpt t)))))"

text \<open>The interface \<^verbatim>\<open>RunnablePostModifier\<close>: anything with a \<^verbatim>\<open>process\<close> method.\<close>

type_synonym RunnablePostModifier = "string \<Rightarrow> string \<times> error option"

subsection \<open>Commands and the process-launching platform\<close>

datatype context_Context = Context nat

datatype io_Writer = Writer nat

record commandRequest =
  ctx :: context_Context
  cmd :: string
  args :: "string list"

text \<open>\<^verbatim>\<open>execCommand\<close> embeds a \<^verbatim>\<open>commandRequest\<close> and has no field of its own.\<close>

type_synonym execCommand = commandRequest

text \<open>The fields of \<^verbatim>\<open>exec.Cmd\<close> this package touches. \<^verbatim>\<open>exec.CommandContext\<close>
  leaves both stream destinations nil.\<close>

record Cmd =
  Ctx :: context_Context
  Name :: string
  Args :: "string list"
  Stdout :: "io_Writer option"
  Stderr :: "io_Writer option"

definition CommandContext :: "context_Context \<Rightarrow> string \<Rightarrow> string list \<Rightarrow> Cmd" where
  "CommandContext c name arg =
     \<lparr>Ctx = c, Name = name, Args = name # arg, Stdout = None, Stderr = None\<rparr>"

text \<open>What launching a process does is the platform's business: the three methods of
  \<^verbatim>\<open>exec.Cmd\<close> used here are parameters of the model. \<^verbatim>\<open>Output\<close> and
  \<^verbatim>\<open>CombinedOutput\<close> hand back the bytes captured so far together with the error.\<close>

record platform =
  Cmd_Run :: "Cmd \<Rightarrow> error option"
  Cmd_Output :: "Cmd \<Rightarrow> string \<times> error option"
  Cmd_CombinedOutput :: "Cmd \<Rightarrow> string \<times> error option"

definition Run :: "platform \<Rightarrow> execCommand \<Rightarrow> error option" where
  "Run p e = Cmd_Run p (CommandContext (ctx e) (cmd e) (args e))"

definition RunStdout :: "platform \<Rightarrow> execCommand \<Rightarrow> string \<times> error option" where
  "RunStdout p e = Cmd_Output p (CommandContext (ctx e) (cmd e) (args e))"

definition RunCombined :: "platform \<Rightarrow> execCommand \<Rightarrow> string \<times> error option" where
  "RunCombined p e = Cmd_CombinedOutput p (CommandContext (ctx e) (cmd e) (args e))"

text \<open>The conversion \<^verbatim>\<open>string(bytes)\<close> keeps the bytes as they are.\<close>

definition string_of_bytes :: "string \<Rightarrow> string" where
  "string_of_bytes bytes = bytes"

text \<open>The loop of \<^verbatim>\<open>RunStdoutStr\<close> over the modifiers, with the variables \<^verbatim>\<open>err\<close> and
  \<^verbatim>\<open>result\<close> it reads and updates.\<close>

fun modifiersLoop ::
  "error option \<Rightarrow> string \<Rightarrow> RunnablePostModifier list \<Rightarrow> string \<times> error option" where
  "modifiersLoop err result [] = (result, None)"
| "modifiersLoop err result (modifier # rest) =
     (case modifier result of
        (procRes, procErr) \<Rightarrow>
          if procErr \<noteq> None then (result, errors_Join [err, procErr])
          else modifiersLoop err procRes rest)"

definition RunStdoutStr ::
  "platform \<Rightarrow> execCommand \<Rightarrow> RunnablePostModifier list \<Rightarrow> string \<times> error option" where
  "RunStdoutStr p e modifiers =
     (case RunStdout p e of
        (bytes, err) \<Rightarrow>
          if err \<noteq> None then ([], err)
          else modifiersLoop err (string_of_bytes bytes) modifiers)"

text \<open>How many modifiers the loop calls \<^verbatim>\<open>process\<close> on: the same traversal, counting
  the calls instead of returning the text.\<close>

fun modifiersCalled :: "string \<Rightarrow> RunnablePostModifier list \<Rightarrow> nat" where
  "modifiersCalled result [] = 0"
| "modifiersCalled result (modifier # rest) =
     (case modifier result of
        (procRes, procErr) \<Rightarrow>
          if procErr \<noteq> None then 1 else 1 + modifiersCalled procRes rest)"

definition RunStdoutStr_calls ::
  "platform \<Rightarrow> execCommand \<Rightarrow> RunnablePostModifier list \<Rightarrow> nat" where
  "RunStdoutStr_calls p e modifiers =
     (case RunStdout p e of
        (bytes, err) \<Rightarrow>
          if err \<noteq> None then 0 else modifiersCalled (string_of_bytes bytes) modifiers)"

definition RunCombinedStr :: "platform \<Rightarrow> execCommand \<Rightarrow> string \<times> error option" where
  "RunCombinedStr p e =
     (case RunCombined p e of
        (bytes, err) \<Rightarrow> if err \<noteq> None then ([], err) else (string_of_bytes bytes, None))"

text \<open>\<^verbatim>\<open>RunToWriter\<close> prepares a command, installs the sinks that are not nil, and
  runs it. \<open>RunToWriter_cmd\<close> is the prepared command at the call of \<^verbatim>\<open>cmd.Run()\<close>.\<close>

definition RunToWriter_cmd :: "execCommand \<Rightarrow> io_Writer option \<Rightarrow> io_Writer option \<Rightarrow> Cmd" where
  "RunToWriter_cmd e stdout stderr =
     (let c0 = CommandContext (ctx e) (cmd e) (args e);
          c1 = (if stdout \<noteq> None then c0\<lparr>Stdout := stdout\<rparr> else c0);
          c2 = (if stderr \<noteq> None then c1\<lparr>Stderr := stderr\<rparr> else c1)
      in c2)"

definition RunToWriter ::
  "platform \<Rightarrow> execCommand \<Rightarrow> io_Writer option \<Rightarrow> io_Writer option \<Rightarrow> error option" where
  "RunToWriter p e stdout stderr = Cmd_Run p (RunToWriter_cmd e stdout stderr)"

text \<open>\<^verbatim>\<open>execCmdFactory.Command\<close> only stores its arguments.\<close>

definition Command :: "context_Context \<Rightarrow> string \<Rightarrow> string list \<Rightarrow> execCommand" where
  "Command c name arg = \<lparr>ctx = c, cmd = name, args = arg\<rparr>"

subsection \<open>A test double for the platform\<close>

text \<open>A platform on which every launch yields the same captured bytes and the same
  error, whatever the command.\<close>

definition fixedPlatform :: "string \<Rightarrow> error option \<Rightarrow> platform" where
  "fixedPlatform out err =
     \<lparr>Cmd_Run = (\<lambda>c. err), Cmd_Output = (\<lambda>c. (out, err)),
      Cmd_CombinedOutput = (\<lambda>c. (out, err))\<rparr>"

subsection \<open>The chain of modifiers as the specification describes it\<close>

text \<open>The specification passes the text through the modifiers in the order given, each
  consuming the previous one's output. \<open>pipelineOutput\<close> is the text this gives,
  the text result of each modifier handed to the next, and \<open>pipelineSucceeds\<close> says
  that every modifier returns a nil error on the text it is handed. Both are written
  from these words, without the loop of \<^verbatim>\<open>RunStdoutStr\<close>, to compare the loop with.\<close>

fun pipelineOutput :: "string \<Rightarrow> RunnablePostModifier list \<Rightarrow> string" where
  "pipelineOutput content [] = content"
| "pipelineOutput content (modifier # rest) = pipelineOutput (fst (modifier content)) rest"

fun pipelineSucceeds :: "string \<Rightarrow> RunnablePostModifier list \<Rightarrow> bool" where
  "pipelineSucceeds content [] = True"
| "pipelineSucceeds content (modifier # rest) =
     (snd (modifier content) = None \<and> pipelineSucceeds (fst (modifier content)) rest)"

section \<open>Properties of trimming\<close>

text \<open>The two loops of package \<^verbatim>\<open>strings\<close> drop the longest run of cutset characters
  at their end of the text.\<close>

lemma trimRightLoop_dropWhile:
  "trimRightLoop s cutset = rev (dropWhile (\<lambda>c. c \<in> set cutset) (rev s))"
proof (induction s cutset rule: trimRightLoop.induct)
  case (1 s cutset)
  show ?case
  proof (cases "s \<noteq> [] \<and> last s \<in> set cutset")
    case True
    then have s: "s = butlast s @ [last s]" by simp
    have "rev (dropWhile (\<lambda>c. c \<in> set cutset) (rev s))
        = rev (dropWhile (\<lambda>c. c \<in> set cutset) (last s # rev (butlast s)))"
      by (subst s) simp
    also have "\<dots> = rev (dropWhile (\<lambda>c. c \<in> set cutset) (rev (butlast s)))"
      using True by simp
    also have "\<dots> = trimRightLoop (butlast s) cutset"
      using "1.IH" [OF True] by simp
    also have "\<dots> = trimRightLoop s cutset"
      using True by (subst (2) trimRightLoop.simps) simp
    finally show ?thesis by simp
  next
    case False
    then have "trimRightLoop s cutset = s"
      by (subst trimRightLoop.simps) auto
    moreover from False have "rev (dropWhile (\<lambda>c. c \<in> set cutset) (rev s)) = s"
      by (cases s rule: rev_cases) auto
    ultimately show ?thesis by simp
  qed
qed

lemma trimLeftLoop_dropWhile:
  "trimLeftLoop s cutset = dropWhile (\<lambda>c. c \<in> set cutset) s"
  by (induction s) auto

lemma TrimRight_dropWhile:
  "TrimRight s cutset = rev (dropWhile (\<lambda>c. c \<in> set cutset) (rev s))"
  by (simp add: TrimRight_def trimRightLoop_dropWhile)

lemma TrimLeft_dropWhile:
  "TrimLeft s cutset = dropWhile (\<lambda>c. c \<in> set cutset) s"
  by (simp add: TrimLeft_def trimLeftLoop_dropWhile)

lemma Trim_dropWhile:
  "Trim s cutset =
     dropWhile (\<lambda>c. c \<in> set cutset) (rev (dropWhile (\<lambda>c. c \<in> set cutset) (rev s)))"
  by (simp add: Trim_def trimRightLoop_dropWhile trimLeftLoop_dropWhile)

section \<open>Results and errors of the simple operations\<close>

text \<open>
  C7. Whenever \<^verbatim>\<open>RunCombined\<close> returns an error, \<^verbatim>\<open>RunCombinedStr\<close> returns the
  empty string together with that same error, whatever bytes came with the error;
  whenever \<^verbatim>\<open>RunCombined\<close> succeeds, \<^verbatim>\<open>RunCombinedStr\<close> returns its bytes as text
  with no error.
\<close>

theorem RunCombinedStr_result:
  "(snd (RunCombined p e) \<noteq> None \<longrightarrow>
      RunCombinedStr p e = ([], snd (RunCombined p e)))
   \<and> (snd (RunCombined p e) = None \<longrightarrow>
      RunCombinedStr p e = (string_of_bytes (fst (RunCombined p e)), None))"
  by (simp add: RunCombinedStr_def split: prod.splits)

theorem RunCombinedStr_result_witness:
  "RunCombinedStr (fixedPlatform ''partial'' (Some (ExitError 2)))
       (Command (Context 0) ''make'' [''all'']) = ([], Some (ExitError 2))
   \<and> RunCombinedStr (fixedPlatform ''done'' None)
       (Command (Context 0) ''make'' [''all'']) = (''done'', None)"
  using RunCombinedStr_result [of "fixedPlatform ''partial'' (Some (ExitError 2))"
                                  "Command (Context 0) ''make'' [''all'']"]
        RunCombinedStr_result [of "fixedPlatform ''done'' None"
                                  "Command (Context 0) ''make'' [''all'']"]
  by (simp add: RunCombined_def fixedPlatform_def string_of_bytes_def)

text \<open>
  C4. \<^verbatim>\<open>process\<close> fails if and only if the trim option is none of the three known
  values; on that failure it returns the empty string and the unknown-option error,
  whatever the content, and for the three known values it returns no error.
\<close>

theorem process_fails_iff_unknown_option:
  "(snd (process t content) \<noteq> None) =
      (trimOpt t \<notin> {PostModifierTrimRight, PostModifierTrimLeft, PostModifierTrimBoth})
   \<and> (trimOpt t \<notin> {PostModifierTrimRight, PostModifierTrimLeft, PostModifierTrimBoth} \<longrightarrow>
        process t content =
          ([], Some (errorString (''unknown trim option: '' @ format_d (trimOpt t)))))
   \<and> (trimOpt t \<in> {PostModifierTrimRight, PostModifierTrimLeft, PostModifierTrimBoth} \<longrightarrow>
        snd (process t content) = None)"
  by (simp add: process_def)

theorem process_fails_iff_unknown_option_witness:
  "process (NewTrimPostModifier 7 ''x'') ''xabcx'' =
      ([], Some (errorString ''unknown trim option: 7''))
   \<and> process (NewTrimPostModifier (- 1) ''x'') [] =
      ([], Some (errorString ''unknown trim option: -1''))
   \<and> snd (process (NewTrimPostModifier PostModifierTrimLeft ''x'') ''xabcx'') = None"
  using process_fails_iff_unknown_option [of "NewTrimPostModifier 7 ''x''" "''xabcx''"]
        process_fails_iff_unknown_option [of "NewTrimPostModifier (- 1) ''x''" "[]"]
        process_fails_iff_unknown_option
          [of "NewTrimPostModifier PostModifierTrimLeft ''x''" "''xabcx''"]
  by (simp add: NewTrimPostModifier_def PostModifierTrimRight_def PostModifierTrimLeft_def
        PostModifierTrimBoth_def format_d_def decimal.simps)

section \<open>The modifier chain of RunStdoutStr\<close>

lemma errors_Join_nil_Some [simp]: "errors_Join [None, Some x] = Some (joinError [x])"
  by (simp add: errors_Join_def)

lemma errors_Join_Some_Some [simp]:
  "errors_Join [Some y, Some x] = Some (joinError [y, x])"
  by (simp add: errors_Join_def)

lemma errors_Join_second_not_nil: "errors_Join [err, Some x] \<noteq> None"
  by (cases err) simp_all

lemma Error_joinError_single [simp]: "Error (joinError [x]) = Error x"
  by simp

lemma modifiersLoop_append:
  "modifiersLoop err s pre = (v, None) \<Longrightarrow>
     modifiersLoop err s (pre @ ms) = modifiersLoop err v ms"
proof (induction pre arbitrary: s)
  case Nil
  then show ?case by simp
next
  case (Cons m pre)
  obtain procRes procErr where m: "m s = (procRes, procErr)"
    by (cases "m s")
  show ?case
  proof (cases procErr)
    case None
    with m Cons.prems have "modifiersLoop err procRes pre = (v, None)" by simp
    then have "modifiersLoop err procRes (pre @ ms) = modifiersLoop err v ms"
      by (rule Cons.IH)
    with m None show ?thesis by simp
  next
    case (Some x)
    with m Cons.prems have "errors_Join [err, Some x] = None" by simp
    then show ?thesis by (simp add: errors_Join_second_not_nil)
  qed
qed

lemma modifiersCalled_append:
  "modifiersLoop err s pre = (v, None) \<Longrightarrow>
     modifiersCalled s (pre @ ms) = length pre + modifiersCalled v ms"
proof (induction pre arbitrary: s)
  case Nil
  then show ?case by simp
next
  case (Cons m pre)
  obtain procRes procErr where m: "m s = (procRes, procErr)"
    by (cases "m s")
  show ?case
  proof (cases procErr)
    case None
    with m Cons.prems have "modifiersLoop err procRes pre = (v, None)" by simp
    then have "modifiersCalled procRes (pre @ ms) = length pre + modifiersCalled v ms"
      by (rule Cons.IH)
    with m None show ?thesis by simp
  next
    case (Some x)
    with m Cons.prems have "errors_Join [err, Some x] = None" by simp
    then show ?thesis by (simp add: errors_Join_second_not_nil)
  qed
qed

text \<open>A failing run of the loop has a first failing modifier: the chain splits into the
  modifiers that succeeded, the one that failed on their output, and the rest.\<close>

lemma modifiersLoop_failure_split:
  "modifiersLoop err s ms = (w, Some x) \<Longrightarrow>
     \<exists>pre m post r perr.
        ms = pre @ m # post \<and> modifiersLoop err s pre = (w, None)
        \<and> m w = (r, Some perr) \<and> errors_Join [err, Some perr] = Some x"
proof (induction ms arbitrary: s)
  case Nil
  then show ?case by simp
next
  case (Cons m ms)
  obtain procRes procErr where m: "m s = (procRes, procErr)"
    by (cases "m s")
  show ?case
  proof (cases procErr)
    case None
    with m Cons.prems have "modifiersLoop err procRes ms = (w, Some x)" by simp
    from Cons.IH [OF this] obtain pre m' post r perr where
      split: "ms = pre @ m' # post" "modifiersLoop err procRes pre = (w, None)"
        "m' w = (r, Some perr)" "errors_Join [err, Some perr] = Some x"
      by blast
    from m None split(2) have "modifiersLoop err s (m # pre) = (w, None)" by simp
    moreover from split(1) have "m # ms = (m # pre) @ m' # post" by simp
    ultimately show ?thesis using split(3,4) by blast
  next
    case (Some perr)
    with m Cons.prems have "w = s" "errors_Join [err, Some perr] = Some x" by simp_all
    moreover have "m # ms = [] @ m # ms" by simp
    moreover have "modifiersLoop err s [] = (s, None)" by simp
    ultimately show ?thesis using m Some by blast
  qed
qed

text \<open>
  C1. When \<^verbatim>\<open>RunStdout\<close> succeeds, the modifiers \<open>pre\<close> at the front of the chain all
  succeed and leave the text \<open>v\<close>, and the next modifier \<open>m\<close> fails on \<open>v\<close>, then
  \<^verbatim>\<open>RunStdoutStr\<close> stops there: it has called \<^verbatim>\<open>process\<close> on the modifiers of \<open>pre\<close>
  and on \<open>m\<close> and on none of the later modifiers \<open>post\<close>, it returns \<open>v\<close>, the last
  text that was produced successfully, and it returns the error of \<open>m\<close> joined with
  the error variable of \<^verbatim>\<open>RunStdout\<close>.
\<close>

theorem RunStdoutStr_stops_at_first_failing_modifier:
  assumes "RunStdout p e = (bytes, None)"
    and "modifiersLoop None (string_of_bytes bytes) pre = (v, None)"
    and "m v = (r, Some perr)"
  shows "RunStdoutStr p e (pre @ m # post) =
           (v, errors_Join [snd (RunStdout p e), Some perr])
         \<and> RunStdoutStr_calls p e (pre @ m # post) = length pre + 1"
proof -
  have "modifiersLoop None (string_of_bytes bytes) (pre @ m # post) =
          modifiersLoop None v (m # post)"
    using assms(2) by (rule modifiersLoop_append)
  moreover have "modifiersCalled (string_of_bytes bytes) (pre @ m # post) =
          length pre + modifiersCalled v (m # post)"
    using assms(2) by (rule modifiersCalled_append)
  ultimately show ?thesis
    using assms(1,3) by (simp add: RunStdoutStr_def RunStdoutStr_calls_def)
qed

theorem RunStdoutStr_stops_at_first_failing_modifier_witness:
  "RunStdoutStr (fixedPlatform ''a  '' None) (Command (Context 0) ''echo'' [''a''])
         [process (NewTrimPostModifier PostModifierTrimRight '' ''),
          process (NewTrimPostModifier 7 '' ''),
          process (NewTrimPostModifier PostModifierTrimLeft ''a'')]
       = (''a'', Some (joinError [errorString ''unknown trim option: 7'']))
   \<and> RunStdoutStr_calls (fixedPlatform ''a  '' None) (Command (Context 0) ''echo'' [''a''])
         [process (NewTrimPostModifier PostModifierTrimRight '' ''),
          process (NewTrimPostModifier 7 '' ''),
          process (NewTrimPostModifier PostModifierTrimLeft ''a'')] = 2"
proof -
  have run: "RunStdout (fixedPlatform ''a  '' None) (Command (Context 0) ''echo'' [''a''])
               = (''a  '', None)"
    by (simp add: RunStdout_def fixedPlatform_def)
  have pre: "modifiersLoop None (string_of_bytes ''a  '')
               [process (NewTrimPostModifier PostModifierTrimRight '' '')] = (''a'', None)"
    by (simp add: string_of_bytes_def process_def NewTrimPostModifier_def
          PostModifierTrimRight_def TrimRight_dropWhile)
  have fails: "process (NewTrimPostModifier 7 '' '') ''a'' =
                 ([], Some (errorString ''unknown trim option: 7''))"
    by (simp add: process_def NewTrimPostModifier_def PostModifierTrimRight_def
          PostModifierTrimLeft_def PostModifierTrimBoth_def format_d_def decimal.simps)
  show ?thesis
    using RunStdoutStr_stops_at_first_failing_modifier
            [of "fixedPlatform ''a  '' None" "Command (Context 0) ''echo'' [''a'']" "''a  ''"
                "[process (NewTrimPostModifier PostModifierTrimRight '' '')]" "''a''"
                "process (NewTrimPostModifier 7 '' '')" "[]"
                "errorString ''unknown trim option: 7''"
                "[process (NewTrimPostModifier PostModifierTrimLeft ''a'')]"]
          run pre fails
    by simp
qed

lemma modifiersLoop_pipeline:
  "pipelineSucceeds s pre \<Longrightarrow> modifiersLoop err s pre = (pipelineOutput s pre, None)"
proof (induction pre arbitrary: s)
  case Nil
  then show ?case by simp
next
  case (Cons m pre)
  then have ok: "snd (m s) = None" and rest: "pipelineSucceeds (fst (m s)) pre"
    by simp_all
  from rest have "modifiersLoop err (fst (m s)) pre = (pipelineOutput (fst (m s)) pre, None)"
    by (rule Cons.IH)
  with ok show ?case by (cases "m s") simp
qed

text \<open>
  C2, as the code has it. When \<^verbatim>\<open>RunStdout\<close> succeeds, the modifiers \<open>pre\<close> in
  front all succeed and the next modifier fails, \<^verbatim>\<open>RunStdoutStr\<close> returns, next to the
  join of that modifier's error, the text that was handed to the failing modifier: the
  capture passed through the modifiers of \<open>pre\<close> in order, each consuming the previous
  one's output. This is the original text of the capture exactly when those modifiers
  map the capture to itself, as they do when the failing modifier is the first.
\<close>

theorem RunStdoutStr_failure_returns_text_before_failing_modifier:
  assumes "RunStdout p e = (bytes, None)"
    and "pipelineSucceeds (string_of_bytes bytes) pre"
    and "m (pipelineOutput (string_of_bytes bytes) pre) = (r, Some perr)"
  shows "RunStdoutStr p e (pre @ m # post) =
           (pipelineOutput (string_of_bytes bytes) pre, Some (joinError [perr]))
         \<and> RunStdoutStr p e pre = (pipelineOutput (string_of_bytes bytes) pre, None)
         \<and> (fst (RunStdoutStr p e (pre @ m # post)) = string_of_bytes (fst (RunStdout p e)))
             = (pipelineOutput (string_of_bytes bytes) pre = string_of_bytes bytes)
         \<and> (pre = [] \<longrightarrow>
              fst (RunStdoutStr p e (pre @ m # post)) = string_of_bytes (fst (RunStdout p e)))"
proof -
  let ?s = "string_of_bytes bytes"
  have loop: "modifiersLoop None ?s pre = (pipelineOutput ?s pre, None)"
    using assms(2) by (rule modifiersLoop_pipeline)
  then have "modifiersLoop None ?s (pre @ m # post) =
          modifiersLoop None (pipelineOutput ?s pre) (m # post)"
    by (rule modifiersLoop_append)
  with assms(1,3)
  have failing: "RunStdoutStr p e (pre @ m # post) =
                   (pipelineOutput ?s pre, Some (joinError [perr]))"
    by (simp add: RunStdoutStr_def)
  from assms(1) loop
  have front: "RunStdoutStr p e pre = (pipelineOutput ?s pre, None)"
    by (simp add: RunStdoutStr_def)
  have first: "pre = [] \<longrightarrow> pipelineOutput ?s pre = ?s" by simp
  from failing first assms(1)
  have "pre = [] \<longrightarrow>
          fst (RunStdoutStr p e (pre @ m # post)) = string_of_bytes (fst (RunStdout p e))"
    by auto
  moreover from failing assms(1)
  have "(fst (RunStdoutStr p e (pre @ m # post)) = string_of_bytes (fst (RunStdout p e)))
          = (pipelineOutput ?s pre = ?s)"
    by simp
  ultimately show ?thesis using failing front by blast
qed

theorem RunStdoutStr_failure_returns_text_before_failing_modifier_witness:
  "RunStdoutStr (fixedPlatform ''a  '' None) (Command (Context 0) ''echo'' [''a''])
         [process (NewTrimPostModifier PostModifierTrimRight '' ''),
          process (NewTrimPostModifier 7 '' ''),
          process (NewTrimPostModifier PostModifierTrimLeft ''a'')]
      = (''a'', Some (joinError [errorString ''unknown trim option: 7'']))
   \<and> RunStdoutStr (fixedPlatform ''a  '' None) (Command (Context 0) ''echo'' [''a''])
         [process (NewTrimPostModifier 7 '' ''),
          process (NewTrimPostModifier PostModifierTrimLeft ''a'')]
      = (''a  '', Some (joinError [errorString ''unknown trim option: 7'']))"
proof -
  have run: "RunStdout (fixedPlatform ''a  '' None) (Command (Context 0) ''echo'' [''a''])
               = (''a  '', None)"
    by (simp add: RunStdout_def fixedPlatform_def)
  have ok: "pipelineSucceeds (string_of_bytes ''a  '')
              [process (NewTrimPostModifier PostModifierTrimRight '' '')]"
    by (simp add: process_def NewTrimPostModifier_def PostModifierTrimRight_def)
  have out: "pipelineOutput (string_of_bytes ''a  '')
               [process (NewTrimPostModifier PostModifierTrimRight '' '')] = ''a''"
    by (simp add: string_of_bytes_def process_def NewTrimPostModifier_def
          PostModifierTrimRight_def TrimRight_dropWhile)
  have fails: "process (NewTrimPostModifier 7 '' '') ''a'' =
                 ([], Some (errorString ''unknown trim option: 7''))"
       "process (NewTrimPostModifier 7 '' '') ''a  '' =
                 ([], Some (errorString ''unknown trim option: 7''))"
    by (simp_all add: process_def NewTrimPostModifier_def PostModifierTrimRight_def
          PostModifierTrimLeft_def PostModifierTrimBoth_def format_d_def decimal.simps)
  show ?thesis
    using RunStdoutStr_failure_returns_text_before_failing_modifier
            [of "fixedPlatform ''a  '' None" "Command (Context 0) ''echo'' [''a'']" "''a  ''"
                "[process (NewTrimPostModifier PostModifierTrimRight '' '')]"
                "process (NewTrimPostModifier 7 '' '')" "[]"
                "errorString ''unknown trim option: 7''"
                "[process (NewTrimPostModifier PostModifierTrimLeft ''a'')]"]
          RunStdoutStr_failure_returns_text_before_failing_modifier
            [of "fixedPlatform ''a  '' None" "Command (Context 0) ''echo'' [''a'']" "''a  ''"
                "[]" "process (NewTrimPostModifier 7 '' '')" "[]"
                "errorString ''unknown trim option: 7''"
                "[process (NewTrimPostModifier PostModifierTrimLeft ''a'')]"]
          run ok out fails
    by (simp add: string_of_bytes_def)
qed

text \<open>C2 as the specification words it fails: after a first modifier has
  trimmed the capture \<open>''a  ''\<close> to \<open>''a''\<close>, a failing second modifier makes
  \<^verbatim>\<open>RunStdoutStr\<close> return \<open>''a''\<close>, not the text of the capture.\<close>

theorem RunStdoutStr_failure_not_original_text:
  "RunStdout (fixedPlatform ''a  '' None) (Command (Context 0) ''echo'' [''a''])
      = (''a  '', None)
   \<and> process (NewTrimPostModifier PostModifierTrimRight '' '') ''a  '' = (''a'', None)
   \<and> process (NewTrimPostModifier 7 '' '') ''a''
      = ([], Some (errorString ''unknown trim option: 7''))
   \<and> RunStdoutStr (fixedPlatform ''a  '' None) (Command (Context 0) ''echo'' [''a''])
        [process (NewTrimPostModifier PostModifierTrimRight '' ''),
         process (NewTrimPostModifier 7 '' '')]
      = (''a'', Some (joinError [errorString ''unknown trim option: 7'']))
   \<and> fst (RunStdoutStr (fixedPlatform ''a  '' None) (Command (Context 0) ''echo'' [''a''])
        [process (NewTrimPostModifier PostModifierTrimRight '' ''),
         process (NewTrimPostModifier 7 '' '')])
      \<noteq> string_of_bytes
          (fst (RunStdout (fixedPlatform ''a  '' None) (Command (Context 0) ''echo'' [''a''])))"
  by (simp add: RunStdoutStr_def RunStdout_def fixedPlatform_def string_of_bytes_def
        process_def NewTrimPostModifier_def PostModifierTrimRight_def
        PostModifierTrimLeft_def PostModifierTrimBoth_def TrimRight_dropWhile
        format_d_def decimal.simps)

text \<open>
  C3, as the code has it. With no modifiers \<^verbatim>\<open>RunStdoutStr\<close> returns the error of
  \<^verbatim>\<open>RunStdout\<close>; when that error is nil the text is the bytes of \<^verbatim>\<open>RunStdout\<close>
  converted to a string, and when it is not nil the text is empty.
\<close>

theorem RunStdoutStr_no_modifiers:
  "snd (RunStdoutStr p e []) = snd (RunStdout p e)
   \<and> (snd (RunStdout p e) = None \<longrightarrow>
        fst (RunStdoutStr p e []) = string_of_bytes (fst (RunStdout p e)))
   \<and> (snd (RunStdout p e) \<noteq> None \<longrightarrow> fst (RunStdoutStr p e []) = [])"
  by (simp add: RunStdoutStr_def split: prod.splits)

theorem RunStdoutStr_no_modifiers_witness:
  "RunStdoutStr (fixedPlatform ''hi'' None) (Command (Context 0) ''printf'' [''hi'']) []
      = (''hi'', None)
   \<and> RunStdoutStr (fixedPlatform ''hi'' (Some (ExitError 1)))
        (Command (Context 0) ''sh'' [''-c'', ''printf hi; exit 1'']) []
      = ([], Some (ExitError 1))"
  using RunStdoutStr_no_modifiers
          [of "fixedPlatform ''hi'' None" "Command (Context 0) ''printf'' [''hi'']"]
        RunStdoutStr_no_modifiers
          [of "fixedPlatform ''hi'' (Some (ExitError 1))"
              "Command (Context 0) ''sh'' [''-c'', ''printf hi; exit 1'']"]
  by (simp add: RunStdout_def fixedPlatform_def string_of_bytes_def prod_eq_iff)

text \<open>C3 as the specification words it fails in the failure case: a command that
  wrote \<open>''hi''\<close> before it exited with status 1 gives \<^verbatim>\<open>RunStdout\<close> these bytes
  with the error, and \<^verbatim>\<open>RunStdoutStr\<close> the empty text.\<close>

theorem RunStdoutStr_no_modifiers_drops_partial_output:
  "RunStdout (fixedPlatform ''hi'' (Some (ExitError 1)))
        (Command (Context 0) ''sh'' [''-c'', ''printf hi; exit 1''])
      = (''hi'', Some (ExitError 1))
   \<and> RunStdoutStr (fixedPlatform ''hi'' (Some (ExitError 1)))
        (Command (Context 0) ''sh'' [''-c'', ''printf hi; exit 1'']) []
      = ([], Some (ExitError 1))
   \<and> fst (RunStdoutStr (fixedPlatform ''hi'' (Some (ExitError 1)))
        (Command (Context 0) ''sh'' [''-c'', ''printf hi; exit 1'']) [])
      \<noteq> string_of_bytes (fst (RunStdout (fixedPlatform ''hi'' (Some (ExitError 1)))
          (Command (Context 0) ''sh'' [''-c'', ''printf hi; exit 1''])))"
  by (simp add: RunStdoutStr_def RunStdout_def fixedPlatform_def string_of_bytes_def)

text \<open>
  C10. \<^verbatim>\<open>RunStdoutStr\<close> enters its loop only when \<^verbatim>\<open>RunStdout\<close> returned a nil error,
  so the error variable that a failing modifier's error is joined with is nil there.
  Hence, whenever \<^verbatim>\<open>RunStdoutStr\<close> returns an error after \<^verbatim>\<open>RunStdout\<close> succeeded,
  that error is the join of one error only, the one returned by the modifier of the
  chain that failed: it wraps exactly that error and prints the same message.
\<close>

theorem RunStdoutStr_modifier_error_joined_with_nil:
  "RunStdoutStr p e ms =
      (if snd (RunStdout p e) \<noteq> None then ([], snd (RunStdout p e))
       else modifiersLoop None (string_of_bytes (fst (RunStdout p e))) ms)
   \<and> (snd (RunStdout p e) = None \<and> snd (RunStdoutStr p e ms) = Some x \<longrightarrow>
        (\<exists>pre m post r perr.
            ms = pre @ m # post
            \<and> modifiersLoop None (string_of_bytes (fst (RunStdout p e))) pre
                = (fst (RunStdoutStr p e ms), None)
            \<and> m (fst (RunStdoutStr p e ms)) = (r, Some perr)
            \<and> x = joinError [perr] \<and> Unwrap x = [perr] \<and> Error x = Error perr))"
proof -
  have shape: "RunStdoutStr p e ms =
      (if snd (RunStdout p e) \<noteq> None then ([], snd (RunStdout p e))
       else modifiersLoop None (string_of_bytes (fst (RunStdout p e))) ms)"
    by (cases "RunStdout p e") (simp add: RunStdoutStr_def)
  have "\<exists>pre m post r perr.
            ms = pre @ m # post
            \<and> modifiersLoop None (string_of_bytes (fst (RunStdout p e))) pre
                = (fst (RunStdoutStr p e ms), None)
            \<and> m (fst (RunStdoutStr p e ms)) = (r, Some perr)
            \<and> x = joinError [perr] \<and> Unwrap x = [perr] \<and> Error x = Error perr"
    if ok: "snd (RunStdout p e) = None" and failed: "snd (RunStdoutStr p e ms) = Some x"
  proof -
    from ok failed shape
    have "modifiersLoop None (string_of_bytes (fst (RunStdout p e))) ms
            = (fst (RunStdoutStr p e ms), Some x)"
      by (simp add: prod_eq_iff)
    from modifiersLoop_failure_split [OF this] obtain pre m post r perr where
      split: "ms = pre @ m # post"
        "modifiersLoop None (string_of_bytes (fst (RunStdout p e))) pre
           = (fst (RunStdoutStr p e ms), None)"
        "m (fst (RunStdoutStr p e ms)) = (r, Some perr)"
        "errors_Join [None, Some perr] = Some x"
      by blast
    from split(4) have "x = joinError [perr]" by simp
    with split(1,2,3) show ?thesis by auto
  qed
  with shape show ?thesis by blast
qed

theorem RunStdoutStr_modifier_error_joined_with_nil_witness:
  "snd (RunStdoutStr (fixedPlatform '' b'' None) (Command (Context 0) ''echo'' [''b''])
         [process (NewTrimPostModifier PostModifierTrimLeft '' ''),
          process (NewTrimPostModifier 3 ''b'')])
     = Some (joinError [errorString ''unknown trim option: 3''])
   \<and> Error (joinError [errorString ''unknown trim option: 3'']) = ''unknown trim option: 3''"
  using RunStdoutStr_modifier_error_joined_with_nil
          [of "fixedPlatform '' b'' None" "Command (Context 0) ''echo'' [''b'']"
              "[process (NewTrimPostModifier PostModifierTrimLeft '' ''),
                process (NewTrimPostModifier 3 ''b'')]"
              "joinError [errorString ''unknown trim option: 3'']"]
  by (simp add: RunStdout_def fixedPlatform_def string_of_bytes_def process_def
        NewTrimPostModifier_def PostModifierTrimRight_def PostModifierTrimLeft_def
        PostModifierTrimBoth_def TrimLeft_dropWhile format_d_def decimal.simps)

text \<open>
  C8. \<^verbatim>\<open>RunToWriter\<close> installs a sink as the destination of its stream exactly when
  the caller supplied it: with a nil sink the stream's destination stays what
  \<^verbatim>\<open>exec.CommandContext\<close> left, which is nil, the platform's default; with a sink it
  is that sink. Nothing else of the command changes, the error returned is the one of
  \<^verbatim>\<open>cmd.Run()\<close> on this command and no other, and with both sinks omitted the call
  is \<^verbatim>\<open>Run()\<close>.
\<close>

theorem RunToWriter_installs_supplied_sinks:
  "Stdout (RunToWriter_cmd e None stderr) = Stdout (CommandContext (ctx e) (cmd e) (args e))
   \<and> Stdout (CommandContext (ctx e) (cmd e) (args e)) = None
   \<and> Stdout (RunToWriter_cmd e (Some w) stderr) = Some w
   \<and> Stderr (RunToWriter_cmd e stdout None) = Stderr (CommandContext (ctx e) (cmd e) (args e))
   \<and> Stderr (CommandContext (ctx e) (cmd e) (args e)) = None
   \<and> Stderr (RunToWriter_cmd e stdout (Some w)) = Some w
   \<and> RunToWriter_cmd e stdout stderr =
        (CommandContext (ctx e) (cmd e) (args e))\<lparr>Stdout := stdout, Stderr := stderr\<rparr>
   \<and> RunToWriter p e stdout stderr = Cmd_Run p (RunToWriter_cmd e stdout stderr)
   \<and> RunToWriter p e None None = Run p e
   \<and> RunToWriter (fixedPlatform out None) e stdout stderr = None"
  by (simp add: RunToWriter_def RunToWriter_cmd_def CommandContext_def Run_def
        fixedPlatform_def Let_def)

section \<open>What the trimming post-modifier keeps\<close>

lemma dropWhile_rev_last_kept:
  "xs = [] \<or> \<not> P (last xs) \<Longrightarrow> rev (dropWhile P (rev xs)) = xs"
  by (cases xs rule: rev_cases) auto

lemma trimmed_right_end:
  "rev (dropWhile P (rev s)) = [] \<or> \<not> P (last (rev (dropWhile P (rev s))))"
proof (cases "dropWhile P (rev s) = []")
  case True
  then show ?thesis by simp
next
  case False
  then have "\<not> P (hd (dropWhile P (rev s)))" by (rule hd_dropWhile)
  with False show ?thesis by (simp add: last_rev)
qed

lemma trimmed_left_end: "dropWhile P s = [] \<or> \<not> P (hd (dropWhile P s))"
  using hd_dropWhile [of P s] by blast

lemma dropWhile_keeps_right_end:
  assumes "r = [] \<or> \<not> P (last r)"
  shows "dropWhile P r = [] \<or> \<not> P (last (dropWhile P r))"
proof (cases "dropWhile P r = []")
  case True
  then show ?thesis by simp
next
  case False
  have "r = takeWhile P r @ dropWhile P r" by simp
  with False have "last r = last (dropWhile P r)"
    by (metis last_appendR)
  moreover from False have "r \<noteq> []" by auto
  ultimately show ?thesis using assms by simp
qed

lemma TrimRight_idem: "TrimRight (TrimRight s cutset) cutset = TrimRight s cutset"
  by (simp add: TrimRight_dropWhile)

lemma TrimLeft_idem: "TrimLeft (TrimLeft s cutset) cutset = TrimLeft s cutset"
  by (simp add: TrimLeft_dropWhile)

lemma Trim_idem: "Trim (Trim s cutset) cutset = Trim s cutset"
proof -
  let ?P = "\<lambda>c. c \<in> set cutset"
  let ?r = "rev (dropWhile ?P (rev s))"
  let ?t = "dropWhile ?P ?r"
  have "?r = [] \<or> \<not> ?P (last ?r)" by (rule trimmed_right_end)
  then have "?t = [] \<or> \<not> ?P (last ?t)" by (rule dropWhile_keeps_right_end)
  then have "rev (dropWhile ?P (rev ?t)) = ?t" by (rule dropWhile_rev_last_kept)
  then have "dropWhile ?P (rev (dropWhile ?P (rev ?t))) = ?t" by simp
  then show ?thesis by (simp only: Trim_dropWhile)
qed

text \<open>
  C5. For each of the three known trim options and every cutset, \<^verbatim>\<open>process\<close> is
  idempotent: applied to its own text result it returns what it returned the first
  time.
\<close>

theorem process_idempotent:
  "trimOpt t \<in> {PostModifierTrimRight, PostModifierTrimLeft, PostModifierTrimBoth} \<Longrightarrow>
     process t (fst (process t content)) = process t content"
  by (auto simp: process_def TrimRight_idem TrimLeft_idem Trim_idem)

theorem process_idempotent_witness:
  "process (NewTrimPostModifier PostModifierTrimBoth ''xy'') ''Hello'' = (''Hello'', None)
   \<and> process (NewTrimPostModifier PostModifierTrimBoth ''xy'') ''xyHelloyyx''
       = (''Hello'', None)"
proof -
  have first: "process (NewTrimPostModifier PostModifierTrimBoth ''xy'') ''xyHelloyyx''
                 = (''Hello'', None)"
    by (simp add: process_def NewTrimPostModifier_def PostModifierTrimRight_def
          PostModifierTrimLeft_def PostModifierTrimBoth_def Trim_dropWhile)
  have known: "trimOpt (NewTrimPostModifier PostModifierTrimBoth ''xy'')
                 \<in> {PostModifierTrimRight, PostModifierTrimLeft, PostModifierTrimBoth}"
    by (simp add: NewTrimPostModifier_def)
  from process_idempotent [OF known, of "''xyHelloyyx''"] first
  show ?thesis by simp
qed

text \<open>
  C6. With the trim-right option \<^verbatim>\<open>process\<close> removes exactly the trailing characters
  that belong to the cutset: the content is the result followed by characters of the
  cutset, and the result is empty or ends in a character outside the cutset. With
  trim-left it does the same at the front, and with trim-both at both ends. In
  particular trim-both of \<open>''xxHelloxx''\<close> with cutset \<open>''x''\<close> and trim-right of
  \<open>''Hello!!!''\<close> with cutset \<open>''!''\<close> both give \<open>''Hello''\<close>.
\<close>

theorem process_removes_exactly_the_cutset_ends:
  "(\<exists>kept suffix.
       process (NewTrimPostModifier PostModifierTrimRight cutset) content = (kept, None)
       \<and> content = kept @ suffix \<and> set suffix \<subseteq> set cutset
       \<and> (kept = [] \<or> last kept \<notin> set cutset))
   \<and> (\<exists>prefix kept.
       process (NewTrimPostModifier PostModifierTrimLeft cutset) content = (kept, None)
       \<and> content = prefix @ kept \<and> set prefix \<subseteq> set cutset
       \<and> (kept = [] \<or> hd kept \<notin> set cutset))
   \<and> (\<exists>prefix kept suffix.
       process (NewTrimPostModifier PostModifierTrimBoth cutset) content = (kept, None)
       \<and> content = prefix @ kept @ suffix
       \<and> set prefix \<subseteq> set cutset \<and> set suffix \<subseteq> set cutset
       \<and> (kept = [] \<or> hd kept \<notin> set cutset \<and> last kept \<notin> set cutset))
   \<and> process (NewTrimPostModifier PostModifierTrimBoth ''x'') ''xxHelloxx'' = (''Hello'', None)
   \<and> process (NewTrimPostModifier PostModifierTrimRight ''!'') ''Hello!!!'' = (''Hello'', None)"
proof -
  let ?P = "\<lambda>c. c \<in> set cutset"
  let ?r = "rev (dropWhile ?P (rev content))"
  let ?rs = "rev (takeWhile ?P (rev content))"
  let ?l = "dropWhile ?P content"
  let ?b = "dropWhile ?P ?r"
  have split_right: "content = ?r @ ?rs"
  proof -
    have "rev content = takeWhile ?P (rev content) @ dropWhile ?P (rev content)" by simp
    then have "rev (rev content) = rev (takeWhile ?P (rev content) @ dropWhile ?P (rev content))"
      by (rule arg_cong)
    then show ?thesis by (simp only: rev_rev_ident rev_append)
  qed
  have in_rs: "set ?rs \<subseteq> set cutset"
    by (auto dest: set_takeWhileD)
  have end_r: "?r = [] \<or> last ?r \<notin> set cutset"
    using trimmed_right_end [of ?P content] by simp
  have right: "\<exists>kept suffix.
       process (NewTrimPostModifier PostModifierTrimRight cutset) content = (kept, None)
       \<and> content = kept @ suffix \<and> set suffix \<subseteq> set cutset
       \<and> (kept = [] \<or> last kept \<notin> set cutset)"
  proof -
    have "process (NewTrimPostModifier PostModifierTrimRight cutset) content = (?r, None)"
      by (simp add: process_def NewTrimPostModifier_def TrimRight_dropWhile)
    with split_right in_rs end_r show ?thesis by blast
  qed
  have left: "\<exists>prefix kept.
       process (NewTrimPostModifier PostModifierTrimLeft cutset) content = (kept, None)
       \<and> content = prefix @ kept \<and> set prefix \<subseteq> set cutset
       \<and> (kept = [] \<or> hd kept \<notin> set cutset)"
  proof -
    have "process (NewTrimPostModifier PostModifierTrimLeft cutset) content = (?l, None)"
      by (simp add: process_def NewTrimPostModifier_def TrimLeft_dropWhile
            PostModifierTrimRight_def PostModifierTrimLeft_def)
    moreover have "content = takeWhile ?P content @ ?l" by simp
    moreover have "set (takeWhile ?P content) \<subseteq> set cutset"
      by (auto dest: set_takeWhileD)
    moreover have "?l = [] \<or> hd ?l \<notin> set cutset"
      using trimmed_left_end [of ?P content] by simp
    ultimately show ?thesis by blast
  qed
  have both: "\<exists>prefix kept suffix.
       process (NewTrimPostModifier PostModifierTrimBoth cutset) content = (kept, None)
       \<and> content = prefix @ kept @ suffix
       \<and> set prefix \<subseteq> set cutset \<and> set suffix \<subseteq> set cutset
       \<and> (kept = [] \<or> hd kept \<notin> set cutset \<and> last kept \<notin> set cutset)"
  proof -
    have "process (NewTrimPostModifier PostModifierTrimBoth cutset) content = (?b, None)"
      by (simp add: process_def NewTrimPostModifier_def Trim_dropWhile
            PostModifierTrimRight_def PostModifierTrimLeft_def PostModifierTrimBoth_def)
    moreover have "content = takeWhile ?P ?r @ ?b @ ?rs"
    proof -
      have "takeWhile ?P ?r @ ?b @ ?rs = ?r @ ?rs" by simp
      also have "\<dots> = content" by (rule split_right [symmetric])
      finally show ?thesis by (rule sym)
    qed
    moreover have "set (takeWhile ?P ?r) \<subseteq> set cutset"
      by (auto dest: set_takeWhileD)
    moreover have "?b = [] \<or> hd ?b \<notin> set cutset"
      using trimmed_left_end [of ?P ?r] by simp
    moreover have "?b = [] \<or> last ?b \<notin> set cutset"
      using dropWhile_keeps_right_end [of ?r ?P] end_r by simp
    ultimately show ?thesis using in_rs by blast
  qed
  have ex1: "process (NewTrimPostModifier PostModifierTrimBoth ''x'') ''xxHelloxx''
               = (''Hello'', None)"
    by (simp add: process_def NewTrimPostModifier_def Trim_dropWhile
          PostModifierTrimRight_def PostModifierTrimLeft_def PostModifierTrimBoth_def)
  have ex2: "process (NewTrimPostModifier PostModifierTrimRight ''!'') ''Hello!!!''
               = (''Hello'', None)"
    by (simp add: process_def NewTrimPostModifier_def TrimRight_dropWhile)
  from right left both ex1 ex2 show ?thesis by (intro conjI)
qed

theorem process_removes_exactly_the_cutset_ends_witness:
  "process (NewTrimPostModifier PostModifierTrimRight ''-+'') ''+-ab-c+-'' = (''+-ab-c'', None)
   \<and> process (NewTrimPostModifier PostModifierTrimLeft ''-+'') ''+-ab-c+-'' = (''ab-c+-'', None)
   \<and> process (NewTrimPostModifier PostModifierTrimBoth ''-+'') ''+-ab-c+-'' = (''ab-c'', None)
   \<and> last ''ab-c'' \<notin> set ''-+'' \<and> hd ''ab-c'' \<notin> set ''-+''"
  using process_removes_exactly_the_cutset_ends [of "''-+''" "''+-ab-c+-''"]
  by (simp add: process_def NewTrimPostModifier_def PostModifierTrimRight_def
        PostModifierTrimLeft_def PostModifierTrimBoth_def TrimRight_dropWhile
        TrimLeft_dropWhile Trim_dropWhile)

text \<open>
  C9. Whatever the trim option and the cutset, the text returned by \<^verbatim>\<open>process\<close>,
  the empty text of the unknown-option branch included, is a contiguous piece of the
  content, and it is never longer than the content.
\<close>

theorem process_result_is_substring:
  "(\<exists>before after. content = before @ fst (process t content) @ after)
   \<and> length (fst (process t content)) \<le> length content"
proof -
  let ?P = "\<lambda>c. c \<in> set (trimChar t)"
  let ?r = "rev (dropWhile ?P (rev content))"
  let ?rs = "rev (takeWhile ?P (rev content))"
  have split_right: "content = ?r @ ?rs"
  proof -
    have "rev content = takeWhile ?P (rev content) @ dropWhile ?P (rev content)" by simp
    then have "rev (rev content) = rev (takeWhile ?P (rev content) @ dropWhile ?P (rev content))"
      by (rule arg_cong)
    then show ?thesis by (simp only: rev_rev_ident rev_append)
  qed
  have piece: "\<exists>before after. content = before @ fst (process t content) @ after"
  proof -
    consider (right) "trimOpt t = PostModifierTrimRight"
      | (left) "trimOpt t \<noteq> PostModifierTrimRight" "trimOpt t = PostModifierTrimLeft"
      | (both) "trimOpt t \<noteq> PostModifierTrimRight" "trimOpt t \<noteq> PostModifierTrimLeft"
          "trimOpt t = PostModifierTrimBoth"
      | (unknown) "trimOpt t \<noteq> PostModifierTrimRight" "trimOpt t \<noteq> PostModifierTrimLeft"
          "trimOpt t \<noteq> PostModifierTrimBoth"
      by blast
    then show ?thesis
    proof cases
      case right
      then have "fst (process t content) = ?r"
        by (simp add: process_def TrimRight_dropWhile)
      moreover from split_right have "content = [] @ ?r @ ?rs" by simp
      ultimately show ?thesis by metis
    next
      case left
      then have "fst (process t content) = dropWhile ?P content"
        by (simp add: process_def TrimLeft_dropWhile)
      moreover have "content = takeWhile ?P content @ dropWhile ?P content @ []" by simp
      ultimately show ?thesis by metis
    next
      case both
      then have "fst (process t content) = dropWhile ?P ?r"
        by (simp add: process_def Trim_dropWhile)
      moreover have "content = takeWhile ?P ?r @ dropWhile ?P ?r @ ?rs"
      proof -
        have "takeWhile ?P ?r @ dropWhile ?P ?r @ ?rs = ?r @ ?rs" by simp
        also have "\<dots> = content" by (rule split_right [symmetric])
        finally show ?thesis by (rule sym)
      qed
      ultimately show ?thesis by metis
    next
      case unknown
      then have "fst (process t content) = []"
        by (simp add: process_def)
      moreover have "content = [] @ [] @ content" by simp
      ultimately show ?thesis by metis
    qed
  qed
  then obtain before after where "content = before @ fst (process t content) @ after"
    by blast
  then have "length content =
      length before + length (fst (process t content)) + length after"
    by (metis length_append add.assoc)
  then have "length (fst (process t content)) \<le> length content" by simp
  with piece show ?thesis by simp
qed

end
